theory Spec2Isabelle
  imports Main "HOL-Library.Word"
begin

section \<open>Memory model\<close>

text \<open>
  The class \<open>Gapbuffer\<close> keeps four raw \<open>char*\<close> pointers into one block obtained from
  \<open>std::allocator<char>\<close>. Pointers are modelled as integer addresses of a flat memory,
  \<open>size_type\<close> (\<open>std::size_t\<close>) as a 64-bit word, \<open>unsigned int\<close> as a 32-bit word and
  \<open>int\<close> as a 32-bit word in two's complement (read by \<open>sint\<close>). A pointer
  difference (\<open>std::ptrdiff_t\<close>) is the difference of the two addresses; its conversion to \<open>size_type\<close> is \<open>word_of_int\<close>,
  which wraps modulo \<open>2 ^ 64\<close>.

  The heap records the contents of memory, the live allocations (base address and number
  of slots) and the next address the allocator hands out. Pointer arithmetic is never
  checked (a pointer may step outside its block, as the source lets it); every read and
  write through a pointer is checked against the live allocations, and an access outside
  of them is the error \<open>Undefined\<close>. \<open>std::destroy_at\<close> and \<open>std::destroy_n\<close> on
  \<open>char\<close> run no destructor and leave memory as it is, so they have no counterpart in
  the model.
\<close>

type_synonym addr = int
type_synonym size_type = "64 word"
type_synonym objref = nat

record heap =
  mem :: "addr \<Rightarrow> char"
  live :: "(addr \<times> int) list"
  brk :: addr

datatype exn = OutOfRange | RuntimeError

datatype error = Throw exn | Undefined

definition accessible :: "heap \<Rightarrow> addr \<Rightarrow> int \<Rightarrow> bool" where
  "accessible h p n = (n \<le> 0 \<or> list_ex (\<lambda>(b, s). b \<le> p \<and> p + n \<le> b + s) (live h))"

definition load :: "heap \<Rightarrow> addr \<Rightarrow> error + char" where
  "load h p = (if accessible h p 1 then Inr (mem h p) else Inl Undefined)"

definition store :: "heap \<Rightarrow> addr \<Rightarrow> char \<Rightarrow> error + heap" where
  "store h p c = (if accessible h p 1 then Inr (h\<lparr>mem := (mem h)(p := c)\<rparr>) else Inl Undefined)"

text \<open>\<open>allocator_type().allocate(n)\<close>: a fresh block of \<open>n\<close> slots, its contents left as
  they were; distinct calls return distinct addresses, also for \<open>n = 0\<close>.\<close>

definition allocate :: "size_type \<Rightarrow> heap \<Rightarrow> addr \<times> heap" where
  "allocate n h =
     (brk h, h\<lparr>live := (brk h, uint n) # live h, brk := brk h + max 1 (uint n)\<rparr>)"

text \<open>\<open>allocator_type().deallocate(p, n)\<close>: \<open>p\<close> must come from \<open>allocate(n)\<close> and still be
  live; releasing the null pointer does nothing.\<close>

definition deallocate :: "addr \<Rightarrow> size_type \<Rightarrow> heap \<Rightarrow> error + heap" where
  "deallocate p n h =
     (if p = 0 then Inr h
      else if (p, uint n) \<in> set (live h) then Inr (h\<lparr>live := remove1 (p, uint n) (live h)\<rparr>)
      else Inl Undefined)"

text \<open>\<open>std::uninitialized_value_construct_n(first, n)\<close>: value-initialises (zeroes) \<open>n\<close>
  slots from \<open>first\<close> on and returns the end of the range.\<close>

definition uninitialized_value_construct_n ::
    "addr \<Rightarrow> size_type \<Rightarrow> heap \<Rightarrow> error + addr \<times> heap" where
  "uninitialized_value_construct_n first n h =
     (if accessible h first (uint n)
      then Inr (first + uint n,
                h\<lparr>mem := (\<lambda>a. if first \<le> a \<and> a < first + uint n then CHR 0x00 else mem h a)\<rparr>)
      else Inl Undefined)"

text \<open>\<open>std::uninitialized_move_n\<close> and \<open>std::uninitialized_copy_n\<close> on \<open>char\<close>: an
  element-wise forward copy of \<open>count\<close> slots (none when \<open>count \<le> 0\<close>), returning the ends of
  the source and of the destination range.\<close>

fun copy_fwd :: "nat \<Rightarrow> addr \<Rightarrow> addr \<Rightarrow> (addr \<Rightarrow> char) \<Rightarrow> addr \<Rightarrow> char" where
  "copy_fwd 0 src dst m = m"
| "copy_fwd (Suc k) src dst m = copy_fwd k (src + 1) (dst + 1) (m(dst := m src))"

definition uninitialized_move_n ::
    "addr \<Rightarrow> int \<Rightarrow> addr \<Rightarrow> heap \<Rightarrow> error + (addr \<times> addr) \<times> heap" where
  "uninitialized_move_n first count d_first h =
     (if accessible h first count \<and> accessible h d_first count
      then Inr ((first + max 0 count, d_first + max 0 count),
                h\<lparr>mem := copy_fwd (nat count) first d_first (mem h)\<rparr>)
      else Inl Undefined)"

text \<open>The same copy when the source is a \<open>std::string_view\<close> or an initializer list, whose
  characters live outside the modelled heap.\<close>

fun store_list :: "(addr \<Rightarrow> char) \<Rightarrow> addr \<Rightarrow> string \<Rightarrow> addr \<Rightarrow> char" where
  "store_list m p [] = m"
| "store_list m p (c # cs) = store_list (m(p := c)) (p + 1) cs"

definition uninitialized_move_str :: "string \<Rightarrow> addr \<Rightarrow> heap \<Rightarrow> error + addr \<times> heap" where
  "uninitialized_move_str str d_first h =
     (if accessible h d_first (int (length str))
      then Inr (d_first + int (length str), h\<lparr>mem := store_list (mem h) d_first str\<rparr>)
      else Inl Undefined)"

text \<open>\<open>std::string::append(const char* s, size_type n)\<close>: the \<open>n\<close> characters from \<open>s\<close> on.\<close>

definition read_n :: "heap \<Rightarrow> addr \<Rightarrow> size_type \<Rightarrow> error + string" where
  "read_n h p n =
     (if accessible h p (uint n) then Inr (map (\<lambda>k. mem h (p + int k)) [0..<unat n])
      else Inl Undefined)"

section \<open>The container\<close>

record gapbuffer =
  bufferStart :: addr
  gapStart :: addr
  gapEnd :: addr
  bufferEnd :: addr

text \<open>The result of a member function that changes the object: it returns, it throws
  (the object and the heap are then as the function left them), or it runs into undefined
  behaviour.\<close>

datatype 'a outcome = Done 'a gapbuffer heap | Thrown exn gapbuffer heap | UB

subsection \<open>Capacity\<close>

definition empty_gb :: "gapbuffer \<Rightarrow> bool" where
  "empty_gb g = (bufferStart g = gapStart g)"

definition size_gb :: "gapbuffer \<Rightarrow> size_type" where
  "size_gb g = word_of_int (bufferEnd g - bufferStart g - (gapEnd g - gapStart g))"

definition gap_size :: "gapbuffer \<Rightarrow> size_type" where
  "gap_size g = word_of_int (gapEnd g - gapStart g)"

definition capacity :: "gapbuffer \<Rightarrow> size_type" where
  "capacity g = word_of_int (bufferEnd g - bufferStart g)"

subsection \<open>Constructors\<close>

definition Gapbuffer_default :: "heap \<Rightarrow> error + gapbuffer \<times> heap" where
  "Gapbuffer_default h =
     (case allocate 32 h of (bs, h1) \<Rightarrow>
        (case uninitialized_value_construct_n bs 32 h1 of
           Inl e \<Rightarrow> Inl e
         | Inr (be, h2) \<Rightarrow>
             Inr (\<lparr>bufferStart = bs, gapStart = bs, gapEnd = be, bufferEnd = be\<rparr>, h2)))"

definition Gapbuffer_length :: "size_type \<Rightarrow> heap \<Rightarrow> error + gapbuffer \<times> heap" where
  "Gapbuffer_length len h =
     (case allocate len h of (bs, h1) \<Rightarrow>
        (case uninitialized_value_construct_n bs len h1 of
           Inl e \<Rightarrow> Inl e
         | Inr (be, h2) \<Rightarrow>
             Inr (\<lparr>bufferStart = bs, gapStart = bs, gapEnd = be, bufferEnd = be\<rparr>, h2)))"

definition Gapbuffer_str :: "string \<Rightarrow> heap \<Rightarrow> error + gapbuffer \<times> heap" where
  "Gapbuffer_str str h =
     (case allocate (word_of_nat (length str) + 8) h of (bs, h1) \<Rightarrow>
        (case uninitialized_move_str str bs h1 of
           Inl e \<Rightarrow> Inl e
         | Inr (final_destination, h2) \<Rightarrow>
             Inr (\<lparr>bufferStart = bs, gapStart = final_destination,
                   gapEnd = final_destination + 8, bufferEnd = final_destination + 8\<rparr>, h2)))"

text \<open>The initializer-list constructor allocates \<open>lst.size()\<close> slots only, and still places
  an 8-slot gap behind the content.\<close>

definition Gapbuffer_list :: "string \<Rightarrow> heap \<Rightarrow> error + gapbuffer \<times> heap" where
  "Gapbuffer_list lst h =
     (case allocate (word_of_nat (length lst)) h of (bs, h1) \<Rightarrow>
        (case uninitialized_move_str lst bs h1 of
           Inl e \<Rightarrow> Inl e
         | Inr (final_destination, h2) \<Rightarrow>
             Inr (\<lparr>bufferStart = bs, gapStart = final_destination,
                   gapEnd = final_destination + 8, bufferEnd = final_destination + 8\<rparr>, h2)))"

text \<open>The copy constructor assigns to \<open>gapStart\<close> what \<open>std::uninitialized_copy_n\<close> returns,
  the end of the copied range.\<close>

definition Gapbuffer_copy :: "gapbuffer \<Rightarrow> heap \<Rightarrow> error + gapbuffer \<times> heap" where
  "Gapbuffer_copy other h =
     (case allocate (capacity other) h of (bs, h1) \<Rightarrow>
        (case uninitialized_move_n (bufferStart other) (uint (capacity other)) bs h1 of
           Inl e \<Rightarrow> Inl e
         | Inr ((_, d_last), h2) \<Rightarrow>
             Inr (\<lparr>bufferStart = bs, gapStart = d_last,
                   gapEnd = bs + (gapEnd other - bufferStart other),
                   bufferEnd = bs + uint (capacity other)\<rparr>, h2)))"

subsection \<open>Element access\<close>

text \<open>The address that \<open>at\<close> and \<open>operator[]\<close> compute for a logical index.\<close>

definition slot :: "gapbuffer \<Rightarrow> size_type \<Rightarrow> addr" where
  "slot g loc =
     (if loc < word_of_int (gapStart g - bufferStart g)
      then bufferStart g + uint loc
      else gapEnd g + uint (loc - word_of_int (gapStart g - bufferStart g)))"

definition subscript :: "gapbuffer \<Rightarrow> heap \<Rightarrow> size_type \<Rightarrow> error + char" where
  "subscript g h loc = load h (slot g loc)"

definition at :: "gapbuffer \<Rightarrow> heap \<Rightarrow> size_type \<Rightarrow> error + char" where
  "at g h loc =
     (if loc \<ge> size_gb g then Inl (Throw OutOfRange)
      else load h (slot g loc))"

text \<open>A count that no live block holds, such as a negative pointer difference converted
  to \<open>size_type\<close>, makes the read \<open>Undefined\<close>; the library throws \<open>std::length_error\<close>
  for such a count, which ends the \<open>noexcept\<close> function \<open>to_str\<close> by \<open>std::terminate\<close>.\<close>

definition to_str :: "gapbuffer \<Rightarrow> heap \<Rightarrow> error + string" where
  "to_str g h =
     (case read_n h (bufferStart g) (word_of_int (gapStart g - bufferStart g)) of
        Inl e \<Rightarrow> Inl e
      | Inr l \<Rightarrow>
          (case read_n h (gapEnd g) (word_of_int (bufferEnd g - gapEnd g)) of
             Inl e \<Rightarrow> Inl e
           | Inr r \<Rightarrow> Inr (l @ r)))"

subsection \<open>Growth\<close>

text \<open>\<open>reserve\<close> value-initialises \<open>new_cap\<close> slots from the current \<open>bufferStart\<close> on (not
  from \<open>new_mem\<close>) and takes the end of that range as the new \<open>bufferEnd\<close>; the old block
  is not released.\<close>

definition reserve :: "size_type \<Rightarrow> gapbuffer \<Rightarrow> heap \<Rightarrow> unit outcome" where
  "reserve new_cap g h =
     (if new_cap > capacity g then
        (case allocate new_cap h of (new_mem, h1) \<Rightarrow>
           (case uninitialized_value_construct_n (bufferStart g) new_cap h1 of
              Inl _ \<Rightarrow> UB
            | Inr (new_end, h2) \<Rightarrow>
                (case uninitialized_move_n (bufferStart g) (gapStart g - bufferStart g) new_mem h2 of
                   Inl _ \<Rightarrow> UB
                 | Inr ((_, lhs_buf), h3) \<Rightarrow>
                     (let rhs_size = (word_of_int (bufferEnd g - gapEnd g) :: size_type) in
                        (case uninitialized_move_n (gapEnd g) (uint rhs_size)
                                (new_end - uint rhs_size) h3 of
                           Inl _ \<Rightarrow> UB
                         | Inr (_, h4) \<Rightarrow>
                             Done () \<lparr>bufferStart = new_mem, gapStart = lhs_buf,
                                      gapEnd = new_end - uint rhs_size, bufferEnd = new_end\<rparr> h4)))))
      else Done () g h)"

subsection \<open>Modifiers\<close>

definition clear :: "gapbuffer \<Rightarrow> heap \<Rightarrow> unit outcome" where
  "clear g h = Done () (g\<lparr>gapStart := bufferStart g, gapEnd := bufferEnd g\<rparr>) h"

definition push_back :: "char \<Rightarrow> gapbuffer \<Rightarrow> heap \<Rightarrow> unit outcome" where
  "push_back v g h =
     (case store h (gapStart g) v of
        Inl _ \<Rightarrow> UB
      | Inr h1 \<Rightarrow>
          (let g1 = g\<lparr>gapStart := gapStart g + 1\<rparr> in
             if gapStart g1 = gapEnd g1 then reserve (capacity g1 * 2) g1 h1
             else Done () g1 h1))"

definition pop_back :: "gapbuffer \<Rightarrow> heap \<Rightarrow> char outcome" where
  "pop_back g h =
     (if gapStart g = bufferStart g then Thrown OutOfRange g h
      else (case load h (gapStart g - 1) of
              Inl _ \<Rightarrow> UB
            | Inr ret \<Rightarrow> Done ret (g\<lparr>gapStart := gapStart g - 1\<rparr>) h))"

fun insert_gb :: "string \<Rightarrow> gapbuffer \<Rightarrow> heap \<Rightarrow> unit outcome" where
  "insert_gb [] g h = Done () g h"
| "insert_gb (c # cs) g h =
     (case push_back c g h of
        Done _ g1 h1 \<Rightarrow> insert_gb cs g1 h1
      | Thrown e g1 h1 \<Rightarrow> Thrown e g1 h1
      | UB \<Rightarrow> UB)"

text \<open>The loop of \<open>erase\<close>: \<open>i\<close> is an \<open>unsigned int\<close>, compared with the \<open>size_type\<close>
  \<open>count\<close> after promotion. An exception of \<open>pop_back\<close> leaves the loop with the object as
  the pops before it left it.\<close>

function erase_loop ::
    "32 word \<Rightarrow> size_type \<Rightarrow> string \<Rightarrow> gapbuffer \<Rightarrow> heap \<Rightarrow> string outcome" where
  "erase_loop i count ret g h =
     (if ucast i < count then
        (case pop_back g h of
           Done c g1 h1 \<Rightarrow> erase_loop (i + 1) count (ret @ [c]) g1 h1
         | Thrown e g1 h1 \<Rightarrow> Thrown e g1 h1
         | UB \<Rightarrow> UB)
      else Done ret g h)"
  by pat_completeness auto

text \<open>Every successful \<open>pop_back\<close> reads the slot below \<open>gapStart\<close> inside a live allocation
  and then lowers \<open>gapStart\<close>, so the loop ends at the latest when \<open>gapStart\<close> reaches the
  lowest live address.\<close>

termination erase_loop
proof (relation "measure (\<lambda>(i, count, ret, g, h). nat (gapStart g - Min (fst ` set (live h))))")
  show "wf (measure (\<lambda>(i, count, ret, g, h). nat (gapStart g - Min (fst ` set (live h)))))"
    by simp
next
  fix i :: "32 word" and count :: size_type and ret :: string
    and g g1 :: gapbuffer and h h1 :: heap and c :: char
  assume "pop_back g h = Done c g1 h1"
  then have eq: "h1 = h" "gapStart g1 = gapStart g - 1"
    and acc: "accessible h (gapStart g - 1) 1"
    by (auto simp: pop_back_def load_def split: if_splits sum.splits)
  from acc obtain b s where bs: "(b, s) \<in> set (live h)" and le: "b \<le> gapStart g - 1"
    by (auto simp: accessible_def list_ex_iff)
  from bs have "b \<in> fst ` set (live h)"
    by force
  then have "Min (fst ` set (live h)) \<le> b"
    by (intro Min_le) simp_all
  with le eq show "((i + 1, count, ret @ [c], g1, h1), (i, count, ret, g, h))
      \<in> measure (\<lambda>(i, count, ret, g, h). nat (gapStart g - Min (fst ` set (live h))))"
    by simp
qed

declare erase_loop.simps [simp del]

definition erase :: "size_type \<Rightarrow> gapbuffer \<Rightarrow> heap \<Rightarrow> string outcome" where
  "erase count g h = erase_loop 0 count [] g h"

subsection \<open>Cursor motion\<close>

definition advance :: "gapbuffer \<Rightarrow> heap \<Rightarrow> unit outcome" where
  "advance g h =
     (case (if gapEnd g < bufferEnd g then map_sum id Some (load h (gapEnd g)) else Inr None) of
        Inl _ \<Rightarrow> UB
      | Inr c \<Rightarrow>
          (let g1 = g\<lparr>gapEnd := gapEnd g + 1\<rparr> in
             (case (case c of Some v \<Rightarrow> store h (gapStart g1) v | None \<Rightarrow> Inr h) of
                Inl _ \<Rightarrow> UB
              | Inr h1 \<Rightarrow> Done () (g1\<lparr>gapStart := gapStart g1 + 1\<rparr>) h1)))"

definition retreat :: "gapbuffer \<Rightarrow> heap \<Rightarrow> unit outcome" where
  "retreat g h =
     (let g1 = g\<lparr>gapStart := gapStart g - 1\<rparr> in
        (case (if gapStart g1 > bufferStart g1 then map_sum id Some (load h (gapStart g1))
               else Inr None) of
           Inl _ \<Rightarrow> UB
         | Inr c \<Rightarrow>
             (let g2 = g1\<lparr>gapEnd := gapEnd g1 - 1\<rparr> in
                (case (case c of Some v \<Rightarrow> store h (gapEnd g2) v | None \<Rightarrow> Inr h) of
                   Inl _ \<Rightarrow> UB
                 | Inr h1 \<Rightarrow> Done () g2 h1))))"

subsection \<open>Iterators\<close>

text \<open>\<open>IteratorTemplate\<close> holds a slot pointer and a pointer to its container. Dereference
  and comparison are implemented. The bodies of the increment, decrement, offset and
  difference operators are empty (\<open>{}\<close>): they change no member and return no value, so
  each is modelled by the iterator's state after the call together with the value
  returned, which is \<open>None\<close>.\<close>

record iterator =
  ptr :: addr
  gb :: objref

definition iter_deref :: "iterator \<Rightarrow> heap \<Rightarrow> error + char" where
  "iter_deref it h = load h (ptr it)"

definition iter_neq :: "iterator \<Rightarrow> iterator \<Rightarrow> bool" where
  "iter_neq a b = (\<not> (ptr a = ptr b \<and> gb a = gb b))"

definition iter_pre_inc :: "iterator \<Rightarrow> iterator \<times> iterator option" where
  "iter_pre_inc it = (it, None)"

definition iter_post_inc :: "iterator \<Rightarrow> iterator \<times> iterator option" where
  "iter_post_inc it = (it, None)"

definition iter_pre_dec :: "iterator \<Rightarrow> iterator \<times> iterator option" where
  "iter_pre_dec it = (it, None)"

definition iter_post_dec :: "iterator \<Rightarrow> iterator \<times> iterator option" where
  "iter_post_dec it = (it, None)"

definition iter_diff :: "iterator \<Rightarrow> iterator \<Rightarrow> int option" where
  "iter_diff a b = None"

definition begin_gb :: "objref \<Rightarrow> gapbuffer \<Rightarrow> iterator" where
  "begin_gb this g = \<lparr>ptr = bufferStart g, gb = this\<rparr>"

definition end_gb :: "objref \<Rightarrow> gapbuffer \<Rightarrow> iterator" where
  "end_gb this g = \<lparr>ptr = bufferEnd g, gb = this\<rparr>"

subsection \<open>Search\<close>

text \<open>The loop of \<open>find\<close>. \<open>std::distance\<close> on a random-access iterator is the iterator
  difference. Using the result of an operator that returned nothing is undefined
  behaviour.\<close>

function find_loop ::
    "char \<Rightarrow> 32 word \<Rightarrow> 32 word \<Rightarrow> iterator \<Rightarrow> iterator \<Rightarrow> iterator \<Rightarrow> heap
       \<Rightarrow> error + 32 word" where
  "find_loop c count tracking_count begin_it end_it it h =
     (if iter_neq it end_it then
        (case iter_deref it h of
           Inl e \<Rightarrow> Inl e
         | Inr v \<Rightarrow>
             (let tracking_count1 = (if v = c then tracking_count + 1 else tracking_count) in
                if v = c \<and> tracking_count1 = count then
                  (case iter_diff it begin_it of
                     None \<Rightarrow> Inl Undefined
                   | Some d \<Rightarrow> Inr (word_of_int d))
                else
                  (case iter_pre_inc it of
                     (it1, None) \<Rightarrow> Inl Undefined
                   | (it1, Some _) \<Rightarrow> find_loop c count tracking_count1 begin_it end_it it1 h)))
      else Inr (- 1))"
  by pat_completeness auto
termination
  by (relation "{}") (auto simp: iter_pre_inc_def)

declare find_loop.simps [simp del]

definition find_gb :: "objref \<Rightarrow> gapbuffer \<Rightarrow> heap \<Rightarrow> char \<Rightarrow> 32 word \<Rightarrow> error + 32 word" where
  "find_gb this g h c count =
     (if count = 0 then Inr 0
      else find_loop c count 0 (begin_gb this g) (end_gb this g) (begin_gb this g) h)"

subsection \<open>Moving and destroying\<close>

text \<open>Gapbuffer objects are held in a store indexed by object reference, so that the
  source and the destination of a move are told apart as \<open>this != &other\<close> does.\<close>

type_synonym objects = "objref \<Rightarrow> gapbuffer"

definition null_gb :: gapbuffer where
  "null_gb = \<lparr>bufferStart = 0, gapStart = 0, gapEnd = 0, bufferEnd = 0\<rparr>"

definition Gapbuffer_move :: "objref \<Rightarrow> objref \<Rightarrow> objects \<Rightarrow> heap \<Rightarrow> error + objects \<times> heap" where
  "Gapbuffer_move this other objs h =
     (let objs1 = objs(this := \<lparr>bufferStart = bufferStart (objs other),
                               gapStart = gapStart (objs other),
                               gapEnd = gapEnd (objs other),
                               bufferEnd = bufferEnd (objs other)\<rparr>) in
        (case deallocate (bufferStart (objs1 other)) (capacity (objs1 other)) h of
           Inl e \<Rightarrow> Inl e
         | Inr h1 \<Rightarrow> Inr (objs1, h1)))"

definition move_assign :: "objref \<Rightarrow> objref \<Rightarrow> objects \<Rightarrow> heap \<Rightarrow> error + objects \<times> heap" where
  "move_assign this other objs h =
     (if this \<noteq> other then
        (case deallocate (bufferStart (objs this)) (capacity (objs this)) h of
           Inl e \<Rightarrow> Inl e
         | Inr h1 \<Rightarrow> Inr (objs(this := objs other, other := null_gb), h1))
      else Inr (objs, h))"

definition destructor :: "gapbuffer \<Rightarrow> heap \<Rightarrow> error + heap" where
  "destructor g h = deallocate (bufferStart g) (capacity g) h"

section \<open>Running the public interface\<close>

text \<open>A reachable state is what a constructor followed by a sequence of public modifiers
  leaves. The sequence stops at the first call that throws or is undefined.\<close>

datatype ctor = Default | Length size_type | Str string | Init string

datatype op = Advance | Retreat | PushBack char | PopBack | Insert string | Erase size_type
  | Reserve size_type | Clear

fun construct :: "ctor \<Rightarrow> heap \<Rightarrow> error + gapbuffer \<times> heap" where
  "construct Default h = Gapbuffer_default h"
| "construct (Length n) h = Gapbuffer_length n h"
| "construct (Str s) h = Gapbuffer_str s h"
| "construct (Init s) h = Gapbuffer_list s h"

definition discard :: "'a outcome \<Rightarrow> unit outcome" where
  "discard r = (case r of Done _ g h \<Rightarrow> Done () g h | Thrown e g h \<Rightarrow> Thrown e g h | UB \<Rightarrow> UB)"

fun call :: "op \<Rightarrow> gapbuffer \<Rightarrow> heap \<Rightarrow> unit outcome" where
  "call Advance g h = advance g h"
| "call Retreat g h = retreat g h"
| "call (PushBack c) g h = push_back c g h"
| "call PopBack g h = discard (pop_back g h)"
| "call (Insert s) g h = insert_gb s g h"
| "call (Erase n) g h = discard (erase n g h)"
| "call (Reserve n) g h = reserve n g h"
| "call Clear g h = clear g h"

fun calls :: "op list \<Rightarrow> gapbuffer \<Rightarrow> heap \<Rightarrow> unit outcome" where
  "calls [] g h = Done () g h"
| "calls (x # xs) g h =
     (case call x g h of
        Done _ g1 h1 \<Rightarrow> calls xs g1 h1
      | Thrown e g1 h1 \<Rightarrow> Thrown e g1 h1
      | UB \<Rightarrow> UB)"

definition run :: "ctor \<Rightarrow> op list \<Rightarrow> heap \<Rightarrow> unit outcome" where
  "run k xs h = (case construct k h of Inl _ \<Rightarrow> UB | Inr (g, h1) \<Rightarrow> calls xs g h1)"

text \<open>A heap with no allocation yet.\<close>

definition heap0 :: heap where
  "heap0 = \<lparr>mem = (\<lambda>_. CHR ''?''), live = [], brk = 4096\<rparr>"

text \<open>The layout invariant of the data model, for an object that owns a live block of
  exactly its capacity.\<close>

definition ordered :: "gapbuffer \<Rightarrow> bool" where
  "ordered g = (bufferStart g \<le> gapStart g \<and> gapStart g \<le> gapEnd g \<and> gapEnd g \<le> bufferEnd g)"

definition well_formed :: "gapbuffer \<Rightarrow> heap \<Rightarrow> bool" where
  "well_formed g h =
     (ordered g \<and> bufferEnd g - bufferStart g < 2 ^ 64
      \<and> list_ex (\<lambda>(b, s). b = bufferStart g \<and> s = bufferEnd g - bufferStart g) (live h))"

text \<open>A heap as the allocator keeps it: every live block lies below \<open>brk\<close>, and two live
  blocks do not overlap.\<close>

definition tidy :: "heap \<Rightarrow> bool" where
  "tidy h =
     (list_all (\<lambda>(b, s). b + max 1 s \<le> brk h) (live h) \<and>
      list_all (\<lambda>(b1, s1). list_all (\<lambda>(b2, s2).
          (b1 = b2 \<and> s1 = s2) \<or> b1 + max 1 s1 \<le> b2 \<or> b2 + max 1 s2 \<le> b1) (live h)) (live h))"

text \<open>The buffer that \<open>Gapbuffer("ab")\<close> builds on \<open>heap0\<close>, and the buffer that
  \<open>Gapbuffer(4)\<close> followed by \<open>push_back('a')\<close> builds there.\<close>

definition gb_ab :: gapbuffer where
  "gb_ab = \<lparr>bufferStart = 4096, gapStart = 4098, gapEnd = 4106, bufferEnd = 4106\<rparr>"

definition heap_ab :: heap where
  "heap_ab = \<lparr>mem = store_list (mem heap0) 4096 ''ab'', live = [(4096, 10)], brk = 4106\<rparr>"

definition gb_a :: gapbuffer where
  "gb_a = \<lparr>bufferStart = 4096, gapStart = 4097, gapEnd = 4100, bufferEnd = 4100\<rparr>"

section \<open>Proofs\<close>

lemmas heap_defs = heap0_def accessible_def load_def store_def allocate_def deallocate_def
  uninitialized_value_construct_n_def uninitialized_move_n_def uninitialized_move_str_def
  read_n_def

lemmas gb_defs = run_def Gapbuffer_default_def Gapbuffer_length_def Gapbuffer_str_def
  Gapbuffer_list_def empty_gb_def size_gb_def gap_size_def capacity_def to_str_def
  reserve_def clear_def push_back_def pop_back_def advance_def retreat_def discard_def
  ordered_def

lemma construct_ab: "run (Str ''ab'') [] heap0 = Done () gb_ab heap_ab"
  by (simp add: heap_defs gb_defs gb_ab_def heap_ab_def)

lemma to_str_ab: "to_str gb_ab heap_ab = Inr ''ab''"
  by (simp add: heap_defs gb_defs gb_ab_def heap_ab_def upt_conv_Cons)

lemma well_formed_ab: "well_formed gb_ab heap_ab"
  by (simp add: well_formed_def ordered_def gb_ab_def heap_ab_def)

lemma tidy_ab: "tidy heap_ab"
  by (simp add: tidy_def heap_ab_def)

lemma construct_a:
  "\<exists>h. run (Length 4) [PushBack CHR ''a''] heap0 = Done () gb_a h \<and> to_str gb_a h = Inr ''a''"
  by (simp add: heap_defs gb_defs gb_a_def upt_conv_Cons)

subsection \<open>Arithmetic of the four pointers\<close>

lemma size_plus_gap_size: "size_gb g + gap_size g = capacity g"
  by (simp add: size_gb_def gap_size_def capacity_def)

lemma advance_size: "advance g h = Done u g1 h1 \<Longrightarrow> size_gb g1 = size_gb g"
  by (auto simp: advance_def size_gb_def Let_def split: sum.splits if_splits option.splits)

lemma retreat_size: "retreat g h = Done u g1 h1 \<Longrightarrow> size_gb g1 = size_gb g"
  by (auto simp: retreat_def size_gb_def Let_def split: sum.splits if_splits option.splits)

subsection \<open>Buffers that keep the layout invariant\<close>

lemma uint_size_t: "0 \<le> k \<Longrightarrow> k < 2 ^ 64 \<Longrightarrow> uint (word_of_int k :: size_type) = k"
  by (simp add: uint_word_of_int_eq take_bit_int_eq_self)

lemma well_formed_accessible:
  assumes "well_formed g h" "bufferStart g \<le> p" "p + n \<le> bufferEnd g"
  shows "accessible h p n"
proof -
  from assms(1) have "(bufferStart g, bufferEnd g - bufferStart g) \<in> set (live h)"
    by (auto simp: well_formed_def list_ex_iff)
  moreover have "bufferStart g \<le> p \<and> p + n \<le> bufferStart g + (bufferEnd g - bufferStart g)"
    using assms(2,3) by simp
  ultimately have "\<exists>x\<in>set (live h). case x of (b, s) \<Rightarrow> b \<le> p \<and> p + n \<le> b + s"
    by (intro bexI [of _ "(bufferStart g, bufferEnd g - bufferStart g)"]) simp_all
  then show ?thesis
    by (simp add: accessible_def list_ex_iff)
qed

lemma well_formed_to_str:
  assumes "well_formed g h"
  shows "to_str g h = Inr (map (\<lambda>k. mem h (bufferStart g + int k)) [0..<nat (gapStart g - bufferStart g)]
                         @ map (\<lambda>k. mem h (gapEnd g + int k)) [0..<nat (bufferEnd g - gapEnd g)])"
proof -
  from assms have o: "bufferStart g \<le> gapStart g" "gapStart g \<le> gapEnd g" "gapEnd g \<le> bufferEnd g"
    and b: "bufferEnd g - bufferStart g < 2 ^ 64"
    by (simp_all add: well_formed_def ordered_def)
  have l: "uint (word_of_int (gapStart g - bufferStart g) :: size_type) = gapStart g - bufferStart g"
    using o b by (intro uint_size_t) simp_all
  have r: "uint (word_of_int (bufferEnd g - gapEnd g) :: size_type) = bufferEnd g - gapEnd g"
    using o b by (intro uint_size_t) simp_all
  have al: "accessible h (bufferStart g) (gapStart g - bufferStart g)"
    using o by (intro well_formed_accessible [OF assms]) simp_all
  have ar: "accessible h (gapEnd g) (bufferEnd g - gapEnd g)"
    using o by (intro well_formed_accessible [OF assms]) simp_all
  show ?thesis
    unfolding to_str_def read_n_def unat_eq_nat_uint l r using al ar by simp
qed

lemma well_formed_store:
  assumes "well_formed g h"
  shows "well_formed g (h\<lparr>mem := m\<rparr>)"
  using assms by (simp add: well_formed_def)

text \<open>Segments of memory as lists.\<close>

lemma seg_snoc:
  "map (\<lambda>k. m (p + int k)) [0..<Suc n] = map (\<lambda>k. m (p + int k)) [0..<n] @ [m (p + int n)]"
  by simp

lemma seg_cons:
  "map (\<lambda>k. m (p + int k)) [0..<Suc n] = m p # map (\<lambda>k. m (p + 1 + int k)) [0..<n]"
proof -
  have "[0..<Suc n] = 0 # map Suc [0..<n]"
    by (simp add: upt_conv_Cons map_Suc_upt del: upt_Suc)
  then show ?thesis
    by (simp add: comp_def add.assoc del: upt_Suc)
qed

lemma seg_update:
  assumes "a < p \<or> p + int n \<le> a"
  shows "map (\<lambda>k. (m(a := v)) (p + int k)) [0..<n] = map (\<lambda>k. m (p + int k)) [0..<n]"
  using assms by auto

subsection \<open>Layout invariant\<close>

text \<open>
  C1. Claimed: in every state reached from a constructor by public operations,
  \<open>size() + gap_size() == capacity()\<close> and
  \<open>bufferStart \<le> gapStart \<le> gapEnd \<le> bufferEnd\<close>. The sum holds for all pointer values
  (lemma \<open>size_plus_gap_size\<close>). The ordering does not: \<open>advance\<close> guards only the copy of
  the element with \<open>gapEnd < bufferEnd\<close> and increments both gap pointers in any case, so
  on \<open>Gapbuffer(10)\<close>, whose right segment is empty, one call leaves \<open>gapEnd\<close> behind
  \<open>bufferEnd\<close>.
\<close>

theorem advance_breaks_ordering:
  "\<exists>g h. run (Length 10) [Advance] heap0 = Done () g h
     \<and> g = \<lparr>bufferStart = 4096, gapStart = 4097, gapEnd = 4107, bufferEnd = 4106\<rparr>
     \<and> bufferEnd g < gapEnd g \<and> \<not> ordered g"
  by (simp add: heap_defs gb_defs)

subsection \<open>Checked element access\<close>

text \<open>
  C2. \<open>at(i)\<close> throws \<open>out_of_range\<close> exactly when \<open>i \<ge> size()\<close>, whatever the four
  pointers are. For a buffer that satisfies the layout invariant and owns its block, an
  index below \<open>size()\<close> is read from the slot \<open>bufferStart + i\<close> when \<open>i\<close> is below the
  length of the left segment and from \<open>gapEnd + (i - left_length)\<close> otherwise, and the
  value is the \<open>i\<close>-th character of \<open>to_str()\<close>, the left segment followed by the right
  one.
\<close>

theorem at_spec:
  "(at g h i = Inl (Throw OutOfRange) \<longleftrightarrow> size_gb g \<le> i) \<and>
   (well_formed g h \<and> i < size_gb g \<longrightarrow>
      slot g i = (if uint i < gapStart g - bufferStart g then bufferStart g + uint i
                  else gapEnd g + (uint i - (gapStart g - bufferStart g))) \<and>
      at g h i = Inr (mem h (slot g i)) \<and>
      (\<exists>s. to_str g h = Inr s \<and> unat i < length s \<and> at g h i = Inr (s ! unat i)))"
proof -
  have first: "at g h i = Inl (Throw OutOfRange) \<longleftrightarrow> size_gb g \<le> i"
    by (simp add: at_def load_def)
  have second: "slot g i = (if uint i < gapStart g - bufferStart g then bufferStart g + uint i
                  else gapEnd g + (uint i - (gapStart g - bufferStart g)))
      \<and> at g h i = Inr (mem h (slot g i))
      \<and> (\<exists>s. to_str g h = Inr s \<and> unat i < length s \<and> at g h i = Inr (s ! unat i))"
    if wf: "well_formed g h" and lt: "i < size_gb g"
  proof -
    from wf have o: "bufferStart g \<le> gapStart g" "gapStart g \<le> gapEnd g" "gapEnd g \<le> bufferEnd g"
      and b: "bufferEnd g - bufferStart g < 2 ^ 64"
      by (simp_all add: well_formed_def ordered_def)
    define L where "L = gapStart g - bufferStart g"
    define R where "R = bufferEnd g - gapEnd g"
    have L0: "0 \<le> L" and R0: "0 \<le> R" and LR: "L + R < 2 ^ 64"
      using o b by (simp_all add: L_def R_def)
    have uL: "uint (word_of_int L :: size_type) = L"
      using L0 R0 LR by (intro uint_size_t) simp_all
    have size: "uint (size_gb g) = L + R"
      unfolding size_gb_def using L0 R0 LR o
      by (subst uint_size_t) (simp_all add: L_def R_def)
    define n where "n = unat i"
    have ui: "uint i = int n"
      by (simp add: n_def)
    from lt have iLR: "int n < L + R"
      by (simp add: word_less_def size ui)
    have cmp: "i < word_of_int L \<longleftrightarrow> int n < L"
      by (simp add: word_less_def uL ui)
    have sub: "uint (i - word_of_int L) = int n - L" if "\<not> int n < L"
    proof -
      have "word_of_int L \<le> i" using that by (simp add: word_le_def uL ui)
      then show ?thesis by (simp add: uint_minus_simple_alt uL ui)
    qed
    have sl: "slot g i = (if int n < L then bufferStart g + int n else gapEnd g + (int n - L))"
      using sub by (simp add: slot_def cmp L_def [symmetric] ui)
    have acc: "accessible h (slot g i) 1"
      using o iLR by (intro well_formed_accessible [OF wf]) (auto simp: sl L_def R_def)
    have atv: "at g h i = Inr (mem h (slot g i))"
      using lt acc by (simp add: at_def load_def leD)
    let ?l = "map (\<lambda>k. mem h (bufferStart g + int k)) [0..<nat L]"
    let ?r = "map (\<lambda>k. mem h (gapEnd g + int k)) [0..<nat R]"
    have nth: "(?l @ ?r) ! n = mem h (slot g i)"
    proof (cases "int n < L")
      case True
      then have "n < nat L" by linarith
      then show ?thesis using True by (simp add: nth_append sl)
    next
      case False
      then have ge: "nat L \<le> n" and lt2: "n - nat L < nat R"
        using L0 R0 iLR by linarith+
      have "int (n - nat L) = int n - L"
        using ge L0 by linarith
      then show ?thesis using False ge lt2 by (simp add: nth_append sl not_less)
    qed
    have len: "n < length (?l @ ?r)"
      using iLR L0 R0 by simp
    have "to_str g h = Inr (?l @ ?r)"
      using well_formed_to_str [OF wf] by (simp add: L_def R_def)
    with nth len atv sl show ?thesis
      by (simp add: n_def [symmetric] ui L_def)
  qed
  from first second show ?thesis by blast
qed

theorem at_spec_witness:
  "well_formed gb_ab heap_ab \<and> (1 :: size_type) < size_gb gb_ab
     \<and> slot gb_ab 1 = bufferStart gb_ab + 1
     \<and> at gb_ab heap_ab 1 = Inr CHR ''b''
     \<and> at gb_ab heap_ab 2 = Inl (Throw OutOfRange)"
proof -
  have lt: "(1 :: size_type) < size_gb gb_ab" and ge: "size_gb gb_ab \<le> 2"
    by (simp_all add: size_gb_def gb_ab_def)
  have v: "mem heap_ab (bufferStart gb_ab + 1) = CHR ''b''"
    by (simp add: heap_ab_def gb_ab_def)
  from at_spec [of gb_ab heap_ab 1] well_formed_ab lt
  have "slot gb_ab 1 = bufferStart gb_ab + 1 \<and> at gb_ab heap_ab 1 = Inr (mem heap_ab (slot gb_ab 1))"
    by (simp add: gb_ab_def)
  moreover from at_spec [of gb_ab heap_ab 2] ge
  have "at gb_ab heap_ab 2 = Inl (Throw OutOfRange)"
    by simp
  ultimately show ?thesis
    using well_formed_ab lt v by simp
qed

subsection \<open>Growth\<close>

lemma reserve_noop: "new_cap \<le> capacity g \<Longrightarrow> reserve new_cap g h = Done () g h"
  by (simp add: reserve_def leD)

lemma reserve_grow_undefined:
  assumes wf: "well_formed g h" and tidy: "tidy h" and grow: "capacity g < new_cap"
  shows "reserve new_cap g h = UB"
proof -
  from wf have o: "bufferStart g \<le> bufferEnd g" and b: "bufferEnd g - bufferStart g < 2 ^ 64"
    and own: "(bufferStart g, bufferEnd g - bufferStart g) \<in> set (live h)"
    by (auto simp: well_formed_def ordered_def list_ex_iff)
  have cap: "uint (capacity g) = bufferEnd g - bufferStart g"
    unfolding capacity_def using o b by (intro uint_size_t) simp_all
  with grow have n: "bufferEnd g - bufferStart g < uint new_cap"
    by (simp add: word_less_def)
  from tidy own have below: "bufferStart g < brk h"
    by (fastforce simp: tidy_def list_all_iff)
  have "\<not> (b \<le> bufferStart g \<and> bufferStart g + uint new_cap \<le> b + s)"
    if "(b, s) \<in> set (live h)" for b s
  proof -
    from tidy own that
    have "(bufferStart g = b \<and> bufferEnd g - bufferStart g = s)
        \<or> bufferStart g + max 1 (bufferEnd g - bufferStart g) \<le> b
        \<or> b + max 1 s \<le> bufferStart g"
      by (fastforce simp: tidy_def list_all_iff)
    with n o show ?thesis
      by auto
  qed
  with below n o have "\<not> accessible (snd (allocate new_cap h)) (bufferStart g) (uint new_cap)"
    by (auto simp: accessible_def allocate_def list_ex_iff)
  with grow show ?thesis
    by (cases "allocate new_cap h") (simp add: reserve_def uninitialized_value_construct_n_def)
qed

text \<open>
  C3. Claimed: \<open>reserve(new_cap)\<close> changes nothing when \<open>new_cap \<le> capacity()\<close> (so it
  does, lemma \<open>reserve_noop\<close>), and for \<open>new_cap > capacity()\<close> keeps \<open>to_str()\<close> and
  both segments while the capacity grows to at least \<open>new_cap\<close>. The growing branch
  value-initialises \<open>new_cap\<close> slots starting at the old \<open>bufferStart\<close> instead of at
  \<open>new_mem\<close>: it writes past the end of the old block, which holds \<open>capacity()\<close> slots
  only, so growing is undefined for every buffer that owns its block (lemma
  \<open>reserve_grow_undefined\<close>). On the buffer built from \<open>"ab"\<close> (capacity 10),
  \<open>reserve(20)\<close> is undefined.
\<close>

theorem reserve_growth_undefined:
  "run (Str ''ab'') [] heap0 = Done () gb_ab heap_ab \<and> capacity gb_ab = 10
     \<and> to_str gb_ab heap_ab = Inr ''ab'' \<and> reserve 20 gb_ab heap_ab = UB"
  using construct_ab to_str_ab
  by (simp add: heap_defs gb_defs gb_ab_def heap_ab_def)

subsection \<open>Cursor motion\<close>

lemma advance_to_str:
  assumes wf: "well_formed g h" and right: "gapEnd g < bufferEnd g"
  shows "\<exists>h1. advance g h = Done () (g\<lparr>gapEnd := gapEnd g + 1, gapStart := gapStart g + 1\<rparr>) h1
           \<and> to_str (g\<lparr>gapEnd := gapEnd g + 1, gapStart := gapStart g + 1\<rparr>) h1 = to_str g h
           \<and> well_formed (g\<lparr>gapEnd := gapEnd g + 1, gapStart := gapStart g + 1\<rparr>) h1"
proof -
  from wf have o: "bufferStart g \<le> gapStart g" "gapStart g \<le> gapEnd g" "gapEnd g \<le> bufferEnd g"
    by (simp_all add: well_formed_def ordered_def)
  let ?g1 = "g\<lparr>gapEnd := gapEnd g + 1, gapStart := gapStart g + 1\<rparr>"
  let ?h1 = "h\<lparr>mem := (mem h)(gapStart g := mem h (gapEnd g))\<rparr>"
  define L where "L = nat (gapStart g - bufferStart g)"
  define R where "R = nat (bufferEnd g - gapEnd g - 1)"
  have L: "gapStart g = bufferStart g + int L" "nat (gapStart g + 1 - bufferStart g) = Suc L"
    using o by (simp_all add: L_def)
  have R: "nat (bufferEnd g - gapEnd g) = Suc R" "nat (bufferEnd g - (gapEnd g + 1)) = R"
    using right by (simp_all add: R_def)
  have a1: "accessible h (gapEnd g) 1" and a2: "accessible h (gapStart g) 1"
    using o right by (auto intro!: well_formed_accessible [OF wf])
  have adv: "advance g h = Done () ?g1 ?h1"
    using right a1 a2 by (simp add: advance_def load_def store_def)
  have wf1: "well_formed ?g1 ?h1"
    using wf o right by (simp add: well_formed_def ordered_def)
  have "map (\<lambda>k. mem ?h1 (bufferStart g + int k)) [0..<Suc L]
          @ map (\<lambda>k. mem ?h1 (gapEnd g + 1 + int k)) [0..<R]
        = map (\<lambda>k. mem h (bufferStart g + int k)) [0..<L]
          @ map (\<lambda>k. mem h (gapEnd g + int k)) [0..<Suc R]"
    unfolding seg_snoc [of _ "bufferStart g" L] seg_cons [of _ "gapEnd g" R]
    using o L(1) by (simp add: seg_update)
  then have "to_str ?g1 ?h1 = to_str g h"
    unfolding well_formed_to_str [OF wf] well_formed_to_str [OF wf1]
    by (simp add: L(2) R L_def [symmetric] del: upt_Suc)
  with adv wf1 show ?thesis
    by blast
qed

lemma retreat_to_str:
  assumes wf: "well_formed g h" and left: "bufferStart g + 1 < gapStart g"
  shows "\<exists>h1. retreat g h = Done () (g\<lparr>gapStart := gapStart g - 1, gapEnd := gapEnd g - 1\<rparr>) h1
           \<and> to_str (g\<lparr>gapStart := gapStart g - 1, gapEnd := gapEnd g - 1\<rparr>) h1 = to_str g h
           \<and> well_formed (g\<lparr>gapStart := gapStart g - 1, gapEnd := gapEnd g - 1\<rparr>) h1"
proof -
  from wf have o: "bufferStart g \<le> gapStart g" "gapStart g \<le> gapEnd g" "gapEnd g \<le> bufferEnd g"
    by (simp_all add: well_formed_def ordered_def)
  let ?g1 = "g\<lparr>gapStart := gapStart g - 1, gapEnd := gapEnd g - 1\<rparr>"
  let ?h1 = "h\<lparr>mem := (mem h)(gapEnd g - 1 := mem h (gapStart g - 1))\<rparr>"
  define L where "L = nat (gapStart g - bufferStart g - 1)"
  define R where "R = nat (bufferEnd g - gapEnd g)"
  have L: "gapStart g - 1 = bufferStart g + int L" "nat (gapStart g - bufferStart g) = Suc L"
    "nat (gapStart g - 1 - bufferStart g) = L"
    using left by (simp_all add: L_def)
  have R: "nat (bufferEnd g - (gapEnd g - 1)) = Suc R"
    using o by (simp add: R_def)
  have a1: "accessible h (gapStart g - 1) 1" and a2: "accessible h (gapEnd g - 1) 1"
    using o left by (auto intro!: well_formed_accessible [OF wf])
  have ret: "retreat g h = Done () ?g1 ?h1"
    using left a1 a2 by (simp add: retreat_def load_def store_def)
  have wf1: "well_formed ?g1 ?h1"
    using wf o left by (simp add: well_formed_def ordered_def)
  have "map (\<lambda>k. mem ?h1 (bufferStart g + int k)) [0..<L]
          @ map (\<lambda>k. mem ?h1 (gapEnd g - 1 + int k)) [0..<Suc R]
        = map (\<lambda>k. mem h (bufferStart g + int k)) [0..<Suc L]
          @ map (\<lambda>k. mem h (gapEnd g + int k)) [0..<R]"
    unfolding seg_snoc [of _ "bufferStart g" L] seg_cons [of _ "gapEnd g - 1" R]
    using o L(1) by (simp add: seg_update)
  then have "to_str ?g1 ?h1 = to_str g h"
    unfolding well_formed_to_str [OF wf] well_formed_to_str [OF wf1]
    by (simp add: L(2,3) R R_def [symmetric] del: upt_Suc)
  with ret wf1 show ?thesis
    by blast
qed

lemma advance_retreat_roundtrip:
  assumes wf: "well_formed g h" and right: "gapEnd g < bufferEnd g"
    and left: "bufferStart g < gapStart g"
  shows "\<exists>h2. calls [Advance, Retreat] g h = Done () g h2 \<and> to_str g h2 = to_str g h"
proof -
  let ?g1 = "g\<lparr>gapEnd := gapEnd g + 1, gapStart := gapStart g + 1\<rparr>"
  from advance_to_str [OF wf right] obtain h1
    where a: "advance g h = Done () ?g1 h1" "to_str ?g1 h1 = to_str g h" "well_formed ?g1 h1"
    by blast
  have "bufferStart ?g1 + 1 < gapStart ?g1"
    using left by simp
  from retreat_to_str [OF a(3) this] obtain h2
    where r: "retreat ?g1 h1 = Done () g h2" "to_str g h2 = to_str ?g1 h1"
    by auto
  from a r show ?thesis
    by simp
qed

lemma retreat_advance_roundtrip:
  assumes wf: "well_formed g h" and left: "bufferStart g + 1 < gapStart g"
  shows "\<exists>h2. calls [Retreat, Advance] g h = Done () g h2 \<and> to_str g h2 = to_str g h"
proof -
  let ?g1 = "g\<lparr>gapStart := gapStart g - 1, gapEnd := gapEnd g - 1\<rparr>"
  from retreat_to_str [OF wf left] obtain h1
    where r: "retreat g h = Done () ?g1 h1" "to_str ?g1 h1 = to_str g h" "well_formed ?g1 h1"
    by blast
  from wf have "gapEnd g \<le> bufferEnd g"
    by (simp add: well_formed_def ordered_def)
  then have "gapEnd ?g1 < bufferEnd ?g1"
    by simp
  from advance_to_str [OF r(3) this] obtain h2
    where a: "advance ?g1 h1 = Done () g h2" "to_str g h2 = to_str ?g1 h1"
    by auto
  from a r show ?thesis
    by simp
qed

text \<open>
  C4. Claimed: \<open>advance()\<close> and \<open>retreat()\<close> leave \<open>to_str()\<close> and \<open>size()\<close> as they
  are, and \<open>retreat()\<close> followed by \<open>advance()\<close> away from a content boundary restores
  \<open>to_str()\<close>. \<open>size()\<close> is kept (lemmas \<open>advance_size\<close>, \<open>retreat_size\<close>);
  \<open>advance()\<close> keeps \<open>to_str()\<close> when the right segment is not empty and \<open>retreat()\<close>
  when the left segment has two elements or more (lemmas \<open>advance_to_str\<close>,
  \<open>retreat_to_str\<close>, \<open>advance_retreat_roundtrip\<close>, \<open>retreat_advance_roundtrip\<close>).
  \<open>retreat\<close> copies the element only when the lowered \<open>gapStart\<close> is strictly above
  \<open>bufferStart\<close>, so the first element of the buffer is never carried over the gap: on
  \<open>Gapbuffer(4)\<close> after \<open>push_back('a')\<close>, \<open>retreat()\<close> turns \<open>"a"\<close> into the zero
  character of the gap, and \<open>advance()\<close> after it writes that character over the
  \<open>'a'\<close>. \<open>advance()\<close> on the same buffer, whose right segment is empty, moves
  \<open>gapEnd\<close> behind \<open>bufferEnd\<close>, after which \<open>to_str()\<close> reads a right segment of
  length \<open>-1\<close>.
\<close>

theorem retreat_drops_first_element:
  "\<exists>h h1 h2 h3 g3.
     run (Length 4) [PushBack CHR ''a''] heap0 = Done () gb_a h \<and> to_str gb_a h = Inr ''a''
     \<and> retreat gb_a h = Done () (gb_a\<lparr>gapStart := 4096, gapEnd := 4099\<rparr>) h1
     \<and> to_str (gb_a\<lparr>gapStart := 4096, gapEnd := 4099\<rparr>) h1 = Inr [CHR 0x00]
     \<and> advance (gb_a\<lparr>gapStart := 4096, gapEnd := 4099\<rparr>) h1 = Done () gb_a h2
     \<and> to_str gb_a h2 = Inr [CHR 0x00]
     \<and> advance gb_a h = Done () g3 h3 \<and> bufferEnd g3 < gapEnd g3
     \<and> to_str g3 h3 = Inl Undefined"
  by (simp add: heap_defs gb_defs gb_a_def upt_conv_Cons unsigned_minus_1_eq_mask
      mask_eq_exp_minus_1)

subsection \<open>Insertion and removal\<close>

lemma push_pop_roundtrip:
  assumes wf: "well_formed g h" and gap: "gapStart g + 1 < gapEnd g"
  shows "\<exists>h1. push_back x g h = Done () (g\<lparr>gapStart := gapStart g + 1\<rparr>) h1
           \<and> pop_back (g\<lparr>gapStart := gapStart g + 1\<rparr>) h1 = Done x g h1
           \<and> to_str g h1 = to_str g h \<and> well_formed g h1"
proof -
  from wf have o: "bufferStart g \<le> gapStart g" "gapEnd g \<le> bufferEnd g"
    by (simp_all add: well_formed_def ordered_def)
  let ?h1 = "h\<lparr>mem := (mem h)(gapStart g := x)\<rparr>"
  have acc: "accessible h (gapStart g) 1"
    using o gap by (intro well_formed_accessible [OF wf]) simp_all
  then have acc1: "accessible ?h1 (gapStart g) 1"
    by (simp add: accessible_def)
  have wf1: "well_formed g ?h1"
    by (rule well_formed_store [OF wf])
  have push: "push_back x g h = Done () (g\<lparr>gapStart := gapStart g + 1\<rparr>) ?h1"
    using acc gap by (simp add: push_back_def store_def)
  have pop: "pop_back (g\<lparr>gapStart := gapStart g + 1\<rparr>) ?h1 = Done x g ?h1"
    using acc1 o by (simp add: pop_back_def load_def)
  have str: "to_str g ?h1 = to_str g h"
    unfolding well_formed_to_str [OF wf] well_formed_to_str [OF wf1]
    using o gap by auto
  from push pop str wf1 show ?thesis
    by blast
qed

lemma push_back_last_slot_undefined:
  assumes wf: "well_formed g h" and tidy: "tidy h" and gap: "gapStart g + 1 = gapEnd g"
    and cap: "bufferEnd g - bufferStart g < 2 ^ 63"
  shows "push_back x g h = UB"
proof -
  from wf have o: "bufferStart g \<le> gapStart g" "gapEnd g \<le> bufferEnd g"
    and b: "bufferEnd g - bufferStart g < 2 ^ 64"
    by (simp_all add: well_formed_def ordered_def)
  let ?g1 = "g\<lparr>gapStart := gapStart g + 1\<rparr>"
  let ?h1 = "h\<lparr>mem := (mem h)(gapStart g := x)\<rparr>"
  have acc: "accessible h (gapStart g) 1"
    using o gap by (intro well_formed_accessible [OF wf]) simp_all
  have wf1: "well_formed ?g1 ?h1"
    using wf o gap by (simp add: well_formed_def ordered_def)
  have t1: "tidy ?h1"
    using tidy by (simp add: tidy_def)
  have pos: "0 < bufferEnd g - bufferStart g"
    using o gap by simp
  have u: "uint (capacity ?g1) = bufferEnd g - bufferStart g"
    unfolding capacity_def using pos b by (subst uint_size_t) simp_all
  have "uint (capacity ?g1 * 2) = 2 * (bufferEnd g - bufferStart g)"
    using cap pos u by (simp add: uint_word_ariths take_bit_int_eq_self mult.commute)
  with u pos have "capacity ?g1 < capacity ?g1 * 2"
    by (simp add: word_less_def)
  from reserve_grow_undefined [OF wf1 t1 this] acc gap show ?thesis
    by (simp add: push_back_def store_def)
qed

text \<open>
  C5. Claimed: \<open>push_back(x)\<close> followed by \<open>pop_back()\<close> restores \<open>to_str()\<close> and
  \<open>size()\<close>, and the \<open>pop_back()\<close> returns \<open>x\<close>, for every buffer. It does while the
  gap has two slots or more (lemma \<open>push_pop_roundtrip\<close>). When the gap has one slot
  left, \<open>push_back\<close> fills it and calls \<open>reserve(capacity() * 2)\<close>, whose growing branch
  writes past the old block (see C3, and lemma \<open>push_back_last_slot_undefined\<close>): on
  \<open>Gapbuffer(1)\<close> the \<open>push_back\<close> itself is undefined, so there is no state for
  \<open>pop_back()\<close> to restore.
\<close>

theorem push_back_growth_undefined:
  "\<exists>g h. run (Length 1) [] heap0 = Done () g h
     \<and> g = \<lparr>bufferStart = 4096, gapStart = 4096, gapEnd = 4097, bufferEnd = 4097\<rparr>
     \<and> gap_size g = 1 \<and> push_back CHR ''a'' g h = UB"
  by (simp add: heap_defs gb_defs)

lemma well_formed_pop:
  assumes "well_formed g h" "gapStart g \<noteq> bufferStart g"
  shows "pop_back g h = Done (mem h (gapStart g - 1)) (g\<lparr>gapStart := gapStart g - 1\<rparr>) h"
    and "well_formed (g\<lparr>gapStart := gapStart g - 1\<rparr>) h"
proof -
  from assms have o: "bufferStart g < gapStart g" "gapStart g \<le> gapEnd g" "gapEnd g \<le> bufferEnd g"
    by (simp_all add: well_formed_def ordered_def)
  have "accessible h (gapStart g - 1) 1"
    using o by (intro well_formed_accessible [OF assms(1)]) simp_all
  then show "pop_back g h = Done (mem h (gapStart g - 1)) (g\<lparr>gapStart := gapStart g - 1\<rparr>) h"
    using assms(2) by (simp add: pop_back_def load_def)
  show "well_formed (g\<lparr>gapStart := gapStart g - 1\<rparr>) h"
    using assms(1) o by (simp add: well_formed_def ordered_def)
qed

lemma erase_loop_past_left:
  assumes "well_formed g h" "uint i + (gapStart g - bufferStart g) < uint count"
  shows "erase_loop i count ret g h = Thrown OutOfRange (g\<lparr>gapStart := bufferStart g\<rparr>) h"
  using assms
proof (induction "nat (gapStart g - bufferStart g)" arbitrary: i ret g)
  case 0
  then have eq: "gapStart g = bufferStart g"
    by (simp add: well_formed_def ordered_def)
  from 0 eq have "uint i < uint count" by simp
  then have "ucast i < count"
    by (simp add: word_less_def uint_up_ucast is_up)
  moreover have "g\<lparr>gapStart := bufferStart g\<rparr> = g"
    using eq by simp
  ultimately show ?case
    by (subst erase_loop.simps) (simp add: pop_back_def eq)
next
  case (Suc k)
  then have ne: "gapStart g \<noteq> bufferStart g" and pos: "0 < gapStart g - bufferStart g"
    by auto
  let ?g1 = "g\<lparr>gapStart := gapStart g - 1\<rparr>"
  have pop: "pop_back g h = Done (mem h (gapStart g - 1)) ?g1 h" and wf1: "well_formed ?g1 h"
    using well_formed_pop [OF Suc.prems(1) ne] by simp_all
  from Suc.prems(2) pos have "uint i < uint count" by simp
  then have cond: "ucast i < count"
    by (simp add: word_less_def uint_up_ucast is_up)
  have "uint (i + 1) \<le> uint i + 1"
    by (metis uint_add_le uint_1)
  then have inv: "uint (i + 1) + (gapStart ?g1 - bufferStart ?g1) < uint count"
    using Suc.prems(2) by simp
  have k: "k = nat (gapStart ?g1 - bufferStart ?g1)"
    using Suc.hyps(2) by simp
  have "erase_loop (i + 1) count (ret @ [mem h (gapStart g - 1)]) ?g1 h
          = Thrown OutOfRange (?g1\<lparr>gapStart := bufferStart ?g1\<rparr>) h"
    by (rule Suc.hyps(1) [OF k wf1 inv])
  then show ?case
    using cond pop by (subst erase_loop.simps) simp
qed

text \<open>
  C6. Claimed: every modifier either completes or fails having altered nothing; in
  particular \<open>erase(count)\<close> with \<open>count\<close> above the length of the left segment fails
  without consuming an element. \<open>erase\<close> is a plain loop of \<open>pop_back()\<close> with no check of
  \<open>count\<close> before it: on the buffer built from \<open>"ab"\<close>, \<open>erase(3)\<close> pops \<open>'b'\<close> and
  \<open>'a'\<close>, and only the third \<open>pop_back()\<close> throws, leaving an empty buffer.
\<close>

theorem erase_partial_counterexample:
  "to_str gb_ab heap_ab = Inr ''ab''
     \<and> erase 3 gb_ab heap_ab = Thrown OutOfRange (gb_ab\<lparr>gapStart := 4096\<rparr>) heap_ab
     \<and> to_str (gb_ab\<lparr>gapStart := 4096\<rparr>) heap_ab = Inr []
     \<and> erase 3 gb_ab heap_ab \<noteq> Thrown OutOfRange gb_ab heap_ab"
  by (simp add: heap_defs gb_defs gb_ab_def heap_ab_def erase_def upt_conv_Cons
      erase_loop.simps [of 0] erase_loop.simps [of 1] erase_loop.simps [of 2])

text \<open>
  C6, as the code has it: on a buffer that satisfies the layout invariant and owns its
  block, \<open>pop_back()\<close> with an empty left segment throws \<open>out_of_range\<close> and leaves the
  buffer and the heap unchanged; \<open>erase(count)\<close> with \<open>count\<close> above the length of the left
  segment throws \<open>out_of_range\<close> after it has popped the whole left segment, leaving
  \<open>gapStart = bufferStart\<close> with the other three pointers and the heap unchanged.
\<close>

theorem pop_back_erase_failure:
  assumes "well_formed g h"
  shows "(gapStart g = bufferStart g \<longrightarrow> pop_back g h = Thrown OutOfRange g h) \<and>
         (gapStart g - bufferStart g < uint count \<longrightarrow>
            erase count g h = Thrown OutOfRange (g\<lparr>gapStart := bufferStart g\<rparr>) h)"
  using erase_loop_past_left [OF assms, of 0 count "[]"]
  by (simp add: erase_def pop_back_def)

theorem pop_back_erase_failure_witness:
  "well_formed gb_ab heap_ab \<and> gapStart gb_ab - bufferStart gb_ab < uint (3 :: size_type)
     \<and> erase 3 gb_ab heap_ab = Thrown OutOfRange (gb_ab\<lparr>gapStart := bufferStart gb_ab\<rparr>) heap_ab
     \<and> well_formed (gb_ab\<lparr>gapStart := 4096\<rparr>) heap_ab
     \<and> gapStart (gb_ab\<lparr>gapStart := 4096\<rparr>) = bufferStart (gb_ab\<lparr>gapStart := 4096\<rparr>)
     \<and> pop_back (gb_ab\<lparr>gapStart := 4096\<rparr>) heap_ab
         = Thrown OutOfRange (gb_ab\<lparr>gapStart := 4096\<rparr>) heap_ab"
proof -
  have lt: "gapStart gb_ab - bufferStart gb_ab < uint (3 :: size_type)"
    by (simp add: gb_ab_def)
  have wf0: "well_formed (gb_ab\<lparr>gapStart := 4096\<rparr>) heap_ab"
    by (simp add: well_formed_def ordered_def gb_ab_def heap_ab_def)
  have e: "gapStart (gb_ab\<lparr>gapStart := 4096\<rparr>) = bufferStart (gb_ab\<lparr>gapStart := 4096\<rparr>)"
    by (simp add: gb_ab_def)
  from pop_back_erase_failure [OF well_formed_ab, of 3] lt
  have "erase 3 gb_ab heap_ab = Thrown OutOfRange (gb_ab\<lparr>gapStart := bufferStart gb_ab\<rparr>) heap_ab"
    by simp
  moreover from pop_back_erase_failure [OF wf0, of 0] e
  have "pop_back (gb_ab\<lparr>gapStart := 4096\<rparr>) heap_ab
          = Thrown OutOfRange (gb_ab\<lparr>gapStart := 4096\<rparr>) heap_ab"
    by simp
  ultimately show ?thesis
    using well_formed_ab lt wf0 e by simp
qed

subsection \<open>Iteration and search\<close>

text \<open>
  C7. Claimed: from the last slot of the left segment an increment lands on \<open>gapEnd\<close>, and
  a decrement from \<open>gapEnd\<close> lands on \<open>gapStart - 1\<close>. \<open>operator++\<close> and \<open>operator--\<close>
  have empty bodies: for every buffer the iterator stays where it was, and the operator
  returns no value.
\<close>

theorem iterator_step_stub:
  "iter_pre_inc \<lparr>ptr = gapStart g - 1, gb = this\<rparr> = (\<lparr>ptr = gapStart g - 1, gb = this\<rparr>, None)
     \<and> iter_pre_dec \<lparr>ptr = gapEnd g, gb = this\<rparr> = (\<lparr>ptr = gapEnd g, gb = this\<rparr>, None)
     \<and> ptr (fst (iter_pre_inc \<lparr>ptr = gapStart gb_ab - 1, gb = this\<rparr>)) = 4097
     \<and> gapEnd gb_ab = 4106"
  by (simp add: iter_pre_inc_def iter_pre_dec_def gb_ab_def)

text \<open>
  C8. Claimed: \<open>find(c, 0)\<close> is \<open>0\<close>; \<open>find(c, k)\<close> for \<open>k \<ge> 1\<close> is the index of the
  \<open>k\<close>-th occurrence of \<open>c\<close>, or \<open>-1\<close> when there are fewer. \<open>find(c, 0)\<close> is \<open>0\<close>. For
  \<open>k \<ge> 1\<close> the loop depends on the iterator's \<open>operator++\<close> and on \<open>std::distance\<close>
  (the iterator's \<open>operator-\<close>), whose bodies are empty (see C7): on the buffer built from
  \<open>"ab"\<close> no search returns an index or \<open>-1\<close>.
\<close>

theorem find_cannot_scan:
  "to_str gb_ab heap_ab = Inr ''ab''
     \<and> find_gb this gb_ab heap_ab CHR ''a'' 1 = Inl Undefined
     \<and> find_gb this gb_ab heap_ab CHR ''b'' 1 = Inl Undefined
     \<and> find_gb this gb_ab heap_ab CHR ''z'' 1 = Inl Undefined
     \<and> find_gb this gb_ab heap_ab CHR ''a'' 0 = Inr 0"
  by (simp add: heap_defs gb_defs gb_ab_def heap_ab_def find_gb_def begin_gb_def end_gb_def
      iter_neq_def iter_deref_def iter_diff_def iter_pre_inc_def upt_conv_Cons
      find_loop.simps [of _ _ 0])

subsection \<open>Ownership\<close>

lemma move_assign_transfers:
  assumes "this \<noteq> other"
    and "deallocate (bufferStart (objs this)) (capacity (objs this)) h = Inr h1"
  shows "move_assign this other objs h = Inr (objs(this := objs other, other := null_gb), h1)"
  using assms by (simp add: move_assign_def)

text \<open>
  C9. Claimed: move construction and move assignment hand the allocation over and leave
  the source with nothing to release, and a move never deallocates what the destination
  references. Move assignment does so (lemma \<open>move_assign_transfers\<close>). The move
  constructor copies the four pointers and then deallocates \<open>other.bufferStart\<close>: with the
  buffer built from \<open>"ab"\<close> as the source, the only block is released, the source keeps
  its pointers, reading the destination is undefined, and so is the destructor of either
  object.
\<close>

theorem move_constructor_frees_destination:
  "\<exists>objs h1. live heap_ab = [(bufferStart gb_ab, 10)]
     \<and> Gapbuffer_move 0 1 (\<lambda>_. gb_ab) heap_ab = Inr (objs, h1)
     \<and> objs 0 = gb_ab \<and> objs 1 = gb_ab \<and> live h1 = []
     \<and> at (objs 0) h1 0 = Inl Undefined
     \<and> destructor (objs 1) h1 = Inl Undefined
     \<and> destructor (objs 0) h1 = Inl Undefined"
  by (simp add: heap_defs gb_defs gb_ab_def heap_ab_def Gapbuffer_move_def destructor_def
      at_def slot_def)

subsection \<open>Emptiness\<close>

text \<open>
  C10. \<open>empty()\<close> is true exactly when the left segment is empty, which is not the same as
  \<open>size() == 0\<close>: after \<open>Gapbuffer("ab")\<close> and two calls of \<open>retreat()\<close> the cursor is at the
  start, \<open>empty()\<close> is true and \<open>size()\<close> is 2.
\<close>

theorem empty_is_left_empty:
  "(\<forall>g. empty_gb g = (gapStart g = bufferStart g)) \<and>
   (\<exists>g h. run (Str ''ab'') [Retreat, Retreat] heap0 = Done () g h
      \<and> g = \<lparr>bufferStart = 4096, gapStart = 4096, gapEnd = 4104, bufferEnd = 4106\<rparr>
      \<and> empty_gb g \<and> size_gb g = 2 \<and> size_gb g \<noteq> 0)"
  by (auto simp add: heap_defs gb_defs)

end
